theory Spec2Isabelle
  imports Main
begin

section \<open>Data model of \<^verbatim>\<open>src/web-router.ts\<close>\<close>

text \<open>
  The router is a class whose methods mutate its own fields and call into the browser
  (\<^verbatim>\<open>window\<close>, \<^verbatim>\<open>document\<close>, \<^verbatim>\<open>URLPattern\<close>). The embedding passes both explicitly:
  a record \<open>Router\<close> with the fields of the class, and a record \<open>Env\<close> with the part of the
  browser the class reads or writes. Three type parameters stand for what the source leaves
  open: \<open>'r\<close> is \<^verbatim>\<open>TRender\<close> without \<^verbatim>\<open>null\<close>, \<open>'w\<close> is the application state that
  plugin hooks and render functions read and change, \<open>'e\<close> is the type of thrown values.

  A value of type \<^verbatim>\<open>T | null\<close> is an \<open>option\<close>: \<open>None\<close> is \<^verbatim>\<open>null\<close>
  (or \<^verbatim>\<open>undefined\<close> for an optional field). \<^verbatim>\<open>TRender\<close> defaults to
  \<^verbatim>\<open>unknown\<close>, which contains \<^verbatim>\<open>null\<close>, so the result of a render function is an
  \<open>'r option\<close> too, and \<^verbatim>\<open>TRender | null\<close> is that same type.
\<close>

text \<open>
  The code supplied by the application (plugin hooks, render functions) is given by what it
  does to the application state and what it returns; it does not call back into the router
  and does not write the location or the document title. Listeners of the router's
  notifications only observe. A hook is given by its settled outcome: a promise that never
  settles would suspend \<^verbatim>\<open>handleNavigation\<close> for ever and is not described.
\<close>

text \<open>
  \<^verbatim>\<open>interface RouterPlugin { name?: string; beforeNavigation?: () => void | Promise<unknown> }\<close>.
  A hook is run on the application state and gives the state it leaves and its settled
  outcome: \<open>None\<close> when it returned (or its promise was fulfilled), \<open>Some e\<close> when it threw
  \<open>e\<close> (or its promise was rejected with \<open>e\<close>); \<^verbatim>\<open>await\<close> inside
  \<^verbatim>\<open>try\<close> treats both failures alike.
\<close>

record ('w, 'e) RouterPlugin =
  name :: "string option"
  beforeNavigation :: "('w \<Rightarrow> 'e option \<times> 'w) option"

text \<open>
  \<^verbatim>\<open>interface Route<TRender> { path; title; render: () => TRender; plugins?: RouterPlugin[] }\<close>.
  The field \<^verbatim>\<open>plugins\<close> is \<open>route_plugins\<close> here, since the class has a field of that name too.
\<close>

record ('r, 'w, 'e) Route =
  path :: string
  title :: string
  render :: "'w \<Rightarrow> 'r option \<times> 'w"
  route_plugins :: "('w, 'e) RouterPlugin list option"

text \<open>\<^verbatim>\<open>interface RouterOptions<TRender> { routes: Route<TRender>[]; plugins?: RouterPlugin[] }\<close>\<close>

record ('r, 'w, 'e) RouterOptions =
  opt_routes :: "('r, 'w, 'e) Route list"
  opt_plugins :: "('w, 'e) RouterPlugin list option"

text \<open>
  A compiled \<^verbatim>\<open>URLPattern\<close> is used only through \<^verbatim>\<open>pattern.test({ pathname })\<close>,
  so it is that test.
\<close>

type_synonym URLPattern = "string \<Rightarrow> bool"

text \<open>The three properties of a \<^verbatim>\<open>URL\<close> object that the class reads.\<close>

record URL =
  href :: string
  origin :: string
  pathname :: string

text \<open>
  The fields of \<^verbatim>\<open>class Router\<close>. \<^verbatim>\<open>patterns\<close> is a \<^verbatim>\<open>Map\<close> whose keys are
  \<^verbatim>\<open>URLPattern\<close> objects: keys are compared by identity and iteration follows insertion,
  so it is an association list in insertion order.
\<close>

record ('r, 'w, 'e) Router =
  routes :: "('r, 'w, 'e) Route list"
  patterns :: "(URLPattern \<times> ('r, 'w, 'e) Route) list"
  currentRoute :: "('r, 'w, 'e) Route option"
  initialized :: bool
  plugins :: "('w, 'e) RouterPlugin list"

text \<open>
  The \<^verbatim>\<open>detail\<close> of the two \<^verbatim>\<open>CustomEvent\<close>s the router dispatches on itself:
  \<^verbatim>\<open>'error'\<close> with \<^verbatim>\<open>{ error, plugin, route }\<close> and \<^verbatim>\<open>'route-changed'\<close> with
  \<^verbatim>\<open>{ route }\<close>.
\<close>

datatype ('r, 'w, 'e) notification =
    ErrorEvent 'e "('w, 'e) RouterPlugin" "('r, 'w, 'e) Route"
  | RouteChanged "('r, 'w, 'e) Route"

text \<open>
  Everything the router does that can be seen from outside is appended, in program order, to
  a log kept in the environment: the two \<^verbatim>\<open>addEventListener\<close> calls, each call of a hook
  and its settling, each \<^verbatim>\<open>dispatchEvent\<close>, the request of a view transition,
  \<^verbatim>\<open>console.warn\<close>, and each assignment to the field \<^verbatim>\<open>currentRoute\<close> (what
  \<^verbatim>\<open>getCurrentRoute()\<close> returns from then on).
\<close>

datatype ('r, 'w, 'e) effect =
    NavigateListenerAdded
  | PopstateListenerAdded
  | HookCalled "('w, 'e) RouterPlugin"
  | HookSettled "('w, 'e) RouterPlugin" "'e option"
  | Dispatched "('r, 'w, 'e) notification"
  | ViewTransitionRequested
  | Warned 'e
  | Assigned "('r, 'w, 'e) Route option"

text \<open>
  What \<^verbatim>\<open>document.startViewTransition(updateDOM)\<close> followed by
  \<^verbatim>\<open>await transition.finished\<close> can do: the browser runs the callback and
  \<^verbatim>\<open>finished\<close> is fulfilled; or the request itself throws (the callback has not run);
  or \<^verbatim>\<open>finished\<close> is rejected, the callback having run before (\<open>True\<close>) or not.
\<close>

datatype 'e transition_outcome =
    Finished
  | RequestThrows 'e
  | FinishedRejects bool 'e

text \<open>
  The browser as the class uses it. \<open>new_URLPattern p\<close> is
  \<^verbatim>\<open>new URLPattern({ pathname: p })\<close>, which throws on a malformed pattern (\<open>Inl\<close>);
  \<open>new_URL p base\<close> is \<^verbatim>\<open>new URL(p, base)\<close> (\<open>base = None\<close> when the call has one
  argument), which throws on a malformed URL;
  \<open>startViewTransition\<close> is \<open>None\<close> when \<^verbatim>\<open>'startViewTransition' in document\<close> is
  false; \<open>document_title\<close> is the string last assigned to \<^verbatim>\<open>document.title\<close>;
  \<open>world\<close> is the application state the hooks work on. \<^verbatim>\<open>window.navigation\<close> and
  \<^verbatim>\<open>URLPattern\<close> exist: the class cannot run without them.
\<close>

record ('r, 'w, 'e) Env =
  location_origin :: string
  location_pathname :: string
  document_title :: string
  new_URLPattern :: "string \<Rightarrow> 'e + URLPattern"
  new_URL :: "string \<Rightarrow> string option \<Rightarrow> 'e + URL"
  startViewTransition :: "'e transition_outcome option"
  world :: 'w
  effects :: "('r, 'w, 'e) effect list"

type_synonym ('r, 'w, 'e) sys = "('r, 'w, 'e) Router \<times> ('r, 'w, 'e) Env"

section \<open>The class \<^verbatim>\<open>Router\<close>\<close>

definition emit :: "('r, 'w, 'e) effect list \<Rightarrow> ('r, 'w, 'e) Env \<Rightarrow> ('r, 'w, 'e) Env" where
  "emit es env = env\<lparr>effects := effects env @ es\<rparr>"

text \<open>\<^verbatim>\<open>constructor(options)\<close>: stores the routes and \<^verbatim>\<open>options.plugins ?? []\<close>.\<close>

definition constructor ::
  "('r, 'w, 'e) RouterOptions \<Rightarrow> ('r, 'w, 'e) Env \<Rightarrow> ('r, 'w, 'e) sys" where
  "constructor options env =
     (\<lparr>routes = opt_routes options,
       patterns = [],
       currentRoute = None,
       initialized = False,
       plugins = (case opt_plugins options of None \<Rightarrow> [] | Some ps \<Rightarrow> ps)\<rparr>,
      env)"

text \<open>
  \<^verbatim>\<open>matchRoute(pathname)\<close>: the \<^verbatim>\<open>for (const [pattern, route] of this.patterns)\<close> loop,
  returning at the first pattern whose test succeeds, \<^verbatim>\<open>null\<close> after the loop.
\<close>

fun matchRoute_loop ::
  "(URLPattern \<times> ('r, 'w, 'e) Route) list \<Rightarrow> string \<Rightarrow> ('r, 'w, 'e) Route option" where
  "matchRoute_loop [] pn = None"
| "matchRoute_loop ((pattern, route) # rest) pn =
     (if pattern pn then Some route else matchRoute_loop rest pn)"

definition matchRoute :: "('r, 'w, 'e) Router \<Rightarrow> string \<Rightarrow> ('r, 'w, 'e) Route option" where
  "matchRoute R pn = matchRoute_loop (patterns R) pn"

text \<open>
  The plugin loop of \<^verbatim>\<open>handleNavigation\<close>:
  \<^verbatim>\<open>for (const plugin of allPlugins) { if (plugin.beforeNavigation) { try { await
  plugin.beforeNavigation(); } catch (error) { this.dispatchEvent(new CustomEvent('error',
  { detail: { error, plugin, route } })); } } }\<close>
\<close>

fun run_plugins ::
  "('r, 'w, 'e) Route \<Rightarrow> ('w, 'e) RouterPlugin list \<Rightarrow> ('r, 'w, 'e) Env \<Rightarrow> ('r, 'w, 'e) Env" where
  "run_plugins route [] env = env"
| "run_plugins route (plugin # rest) env =
     (case beforeNavigation plugin of
        None \<Rightarrow> run_plugins route rest env
      | Some hook \<Rightarrow>
          (case hook (world env) of
             (None, w) \<Rightarrow>
               run_plugins route rest
                 (emit [HookCalled plugin, HookSettled plugin None] (env\<lparr>world := w\<rparr>))
           | (Some error, w) \<Rightarrow>
               run_plugins route rest
                 (emit [HookCalled plugin, HookSettled plugin (Some error),
                        Dispatched (ErrorEvent error plugin route)] (env\<lparr>world := w\<rparr>))))"

text \<open>
  The closure \<^verbatim>\<open>updateDOM\<close> of \<^verbatim>\<open>handleNavigation\<close>, the state commit:
  \<^verbatim>\<open>this.currentRoute = route; this.dispatchEvent(new CustomEvent('route-changed',
  { detail: { route } }))\<close>.
\<close>

definition updateDOM :: "('r, 'w, 'e) Route \<Rightarrow> ('r, 'w, 'e) sys \<Rightarrow> ('r, 'w, 'e) sys" where
  "updateDOM route s =
     (case s of (R, env) \<Rightarrow>
        (R\<lparr>currentRoute := Some route\<rparr>,
         emit [Assigned (Some route), Dispatched (RouteChanged route)] env))"

text \<open>The second parameter of \<^verbatim>\<open>handleNavigation\<close>, \<^verbatim>\<open>options?: { skipViewTransition?: boolean }\<close>.\<close>

record HandleOptions =
  skipViewTransition :: "bool option"

definition skip_requested :: "HandleOptions option \<Rightarrow> bool" where
  "skip_requested options =
     (case options of None \<Rightarrow> False
      | Some opts \<Rightarrow> (case skipViewTransition opts of None \<Rightarrow> False | Some b \<Rightarrow> b))"

text \<open>
  \<^verbatim>\<open>handleNavigation(route, options)\<close>. The plugins are
  \<^verbatim>\<open>[...this.plugins, ...(route.plugins ?? [])]\<close>; the title is set under
  \<^verbatim>\<open>if (route.title)\<close>, which is false for the empty string; then the state commit runs
  directly, or inside a view transition, or in the \<^verbatim>\<open>catch\<close> after
  \<^verbatim>\<open>console.warn\<close>.
\<close>

definition allPlugins ::
  "('r, 'w, 'e) Router \<Rightarrow> ('r, 'w, 'e) Route \<Rightarrow> ('w, 'e) RouterPlugin list" where
  "allPlugins R route =
     plugins R @ (case route_plugins route of None \<Rightarrow> [] | Some ps \<Rightarrow> ps)"

definition set_title :: "('r, 'w, 'e) Route \<Rightarrow> ('r, 'w, 'e) Env \<Rightarrow> ('r, 'w, 'e) Env" where
  "set_title route env =
     (if title route \<noteq> [] then env\<lparr>document_title := title route\<rparr> else env)"

definition handleNavigation ::
  "('r, 'w, 'e) Route \<Rightarrow> HandleOptions option \<Rightarrow> ('r, 'w, 'e) sys \<Rightarrow> ('r, 'w, 'e) sys" where
  "handleNavigation route options s =
     (case s of (R, env0) \<Rightarrow>
        let env = set_title route (run_plugins route (allPlugins R route) env0) in
        if skip_requested options then updateDOM route (R, env)
        else
          (case startViewTransition env of
             None \<Rightarrow> updateDOM route (R, env)
           | Some Finished \<Rightarrow> updateDOM route (R, emit [ViewTransitionRequested] env)
           | Some (RequestThrows e) \<Rightarrow>
               updateDOM route (R, emit [ViewTransitionRequested, Warned e] env)
           | Some (FinishedRejects callback_ran e) \<Rightarrow>
               (case (if callback_ran then updateDOM route (R, emit [ViewTransitionRequested] env)
                      else (R, emit [ViewTransitionRequested] env)) of
                  (R', env') \<Rightarrow> updateDOM route (R', emit [Warned e] env'))))"

text \<open>
  The listener that \<^verbatim>\<open>setupNavigationListeners\<close> puts on \<^verbatim>\<open>window.navigation\<close>.
  \<^verbatim>\<open>event.downloadRequest\<close> is \<^verbatim>\<open>string | null\<close> and
  \<^verbatim>\<open>event.formData\<close> is \<^verbatim>\<open>FormData | null\<close>; the test
  \<^verbatim>\<open>event.downloadRequest || event.formData\<close> is on their truthiness: a string is truthy
  when it is not empty, an object always.
\<close>

record NavigateEvent =
  destination_url :: string
  downloadRequest :: "string option"
  formData :: "(string \<times> string) list option"
  canIntercept :: bool

definition truthy_string :: "string option \<Rightarrow> bool" where
  "truthy_string v = (case v of None \<Rightarrow> False | Some str \<Rightarrow> str \<noteq> [])"

definition truthy_object :: "'a option \<Rightarrow> bool" where
  "truthy_object v = (case v of None \<Rightarrow> False | Some obj \<Rightarrow> True)"

text \<open>
  The argument of \<^verbatim>\<open>event.intercept\<close>; the handler is
  \<^verbatim>\<open>async () => { await this.handleNavigation(route) }\<close>, given by its route.
\<close>

record ('r, 'w, 'e) InterceptOptions =
  focusReset :: string
  scroll :: string
  handler :: "('r, 'w, 'e) Route"

text \<open>
  The result is \<open>None\<close> when the listener returns without calling
  \<^verbatim>\<open>event.intercept\<close> (also when \<^verbatim>\<open>new URL\<close> throws, which ends the listener).
\<close>

definition onNavigate ::
  "NavigateEvent \<Rightarrow> ('r, 'w, 'e) sys \<Rightarrow> ('r, 'w, 'e) InterceptOptions option" where
  "onNavigate event s =
     (case s of (R, env) \<Rightarrow>
        (case new_URL env (destination_url event) None of
           Inl e \<Rightarrow> None
         | Inr url \<Rightarrow>
             if origin url \<noteq> location_origin env then None
             else if truthy_string (downloadRequest event) \<or> truthy_object (formData event) then None
             else if \<not> canIntercept event then None
             else
               (case matchRoute R (pathname url) of
                  None \<Rightarrow> None
                | Some route \<Rightarrow>
                    Some \<lparr>focusReset = ''manual'', scroll = ''manual'', handler = route\<rparr>)))"

text \<open>
  The \<^verbatim>\<open>popstate\<close> listener:
  \<^verbatim>\<open>if (route && route.path !== this.currentRoute?.path) this.handleNavigation(route)\<close>.
  \<^verbatim>\<open>this.currentRoute?.path\<close> is \<^verbatim>\<open>undefined\<close> when there is no current route,
  which differs from every string.
\<close>

definition onPopstate :: "('r, 'w, 'e) sys \<Rightarrow> ('r, 'w, 'e) sys" where
  "onPopstate s =
     (case s of (R, env) \<Rightarrow>
        (case matchRoute R (location_pathname env) of
           None \<Rightarrow> s
         | Some route \<Rightarrow>
             if Some (path route) \<noteq> map_option path (currentRoute R)
             then handleNavigation route None s else s))"

text \<open>\<^verbatim>\<open>setupNavigationListeners()\<close>: one listener on each of the two event sources.\<close>

definition setupNavigationListeners :: "('r, 'w, 'e) Env \<Rightarrow> ('r, 'w, 'e) Env" where
  "setupNavigationListeners env = emit [NavigateListenerAdded, PopstateListenerAdded] env"

text \<open>
  The first loop of \<^verbatim>\<open>init\<close>:
  \<^verbatim>\<open>for (const route of this.routes) { const pattern = new URLPattern({ pathname:
  route.path }); this.patterns.set(pattern, route); }\<close>. Each key is an object made in this
  iteration, so \<^verbatim>\<open>set\<close> never finds it in the map and adds the entry at the end. When
  the constructor throws, the loop ends there and the entries added so far stay.
\<close>

fun build_patterns ::
  "(string \<Rightarrow> 'e + URLPattern) \<Rightarrow> ('r, 'w, 'e) Route list \<Rightarrow>
   (URLPattern \<times> ('r, 'w, 'e) Route) list \<Rightarrow>
   'e option \<times> (URLPattern \<times> ('r, 'w, 'e) Route) list" where
  "build_patterns compile [] table = (None, table)"
| "build_patterns compile (route # rest) table =
     (case compile (path route) of
        Inl e \<Rightarrow> (Some e, table)
      | Inr pattern \<Rightarrow> build_patterns compile rest (table @ [(pattern, route)]))"

text \<open>
  \<^verbatim>\<open>async init()\<close>. The result is \<open>Inl e\<close> when the promise is rejected with \<open>e\<close>
  and \<open>Inr ()\<close> when it is fulfilled; the state is returned in both cases.
\<close>

definition init :: "('r, 'w, 'e) sys \<Rightarrow> ('e + unit) \<times> ('r, 'w, 'e) sys" where
  "init s =
     (case s of (R, env) \<Rightarrow>
        if initialized R then (Inr (), s)
        else
          (case build_patterns (new_URLPattern env) (routes R) (patterns R) of
             (Some e, table) \<Rightarrow> (Inl e, (R\<lparr>patterns := table\<rparr>, env))
           | (None, table) \<Rightarrow>
               let R1 = R\<lparr>patterns := table\<rparr>;
                   initial = matchRoute R1 (location_pathname env);
                   R2 = R1\<lparr>currentRoute := initial\<rparr>;
                   env2 = setupNavigationListeners (emit [Assigned initial] env);
                   R3 = R2\<lparr>initialized := True\<rparr>
               in (case currentRoute R3 of
                     None \<Rightarrow> (Inr (), (R3, env2))
                   | Some route \<Rightarrow> (Inr (), handleNavigation route None (R3, env2)))))"

text \<open>
  \<^verbatim>\<open>navigate(path, options)\<close>. \<^verbatim>\<open>path\<close> is \<^verbatim>\<open>string | URL\<close>;
  \<^verbatim>\<open>options?: { state?: T }\<close>. The call
  \<^verbatim>\<open>await window.navigation.navigate(url.href, { history: 'push', info: { viewTransition:
  true }, state: options?.state }).finished\<close> is handed to the browser, given as a
  parameter: from the request and the state it gives how \<^verbatim>\<open>finished\<close> settles
  (\<open>Some e\<close> for a rejection) and the state then.
\<close>

datatype navigate_path = PathString string | PathURL URL

record 't NavigateOptions =
  state :: "'t option"

record 't NavigationNavigateOptions =
  history :: string
  info_viewTransition :: bool
  navigation_state :: "'t option"

definition navigate ::
  "(string \<Rightarrow> 't NavigationNavigateOptions \<Rightarrow> ('r, 'w, 'e) sys \<Rightarrow> 'e option \<times> ('r, 'w, 'e) sys) \<Rightarrow>
   navigate_path \<Rightarrow> 't NavigateOptions option \<Rightarrow> ('r, 'w, 'e) sys \<Rightarrow>
   ('e + unit) \<times> ('r, 'w, 'e) sys" where
  "navigate window_navigation_navigate p options s =
     (case (case p of PathString str \<Rightarrow> new_URL (snd s) str (Some (location_origin (snd s)))
                    | PathURL u \<Rightarrow> Inr u) of
        Inl e \<Rightarrow> (Inl e, s)
      | Inr url \<Rightarrow>
          (case window_navigation_navigate (href url)
                  \<lparr>history = ''push'', info_viewTransition = True,
                   navigation_state = (case options of None \<Rightarrow> None | Some opts \<Rightarrow> state opts)\<rparr> s of
             (None, s') \<Rightarrow> (Inr (), s')
           | (Some e, s') \<Rightarrow> (Inl e, s')))"

text \<open>
  \<^verbatim>\<open>render()\<close> (here \<open>Router_render\<close>, \<open>render\<close> being the field of a route) and
  \<^verbatim>\<open>getCurrentRoute()\<close>.
\<close>

definition Router_render :: "('r, 'w, 'e) sys \<Rightarrow> 'r option \<times> ('r, 'w, 'e) sys" where
  "Router_render s =
     (case s of (R, env) \<Rightarrow>
        (case currentRoute R of
           None \<Rightarrow> (None, s)
         | Some route \<Rightarrow>
             (case render route (world env) of (out, w) \<Rightarrow> (out, (R, env\<lparr>world := w\<rparr>)))))"

definition getCurrentRoute :: "('r, 'w, 'e) sys \<Rightarrow> ('r, 'w, 'e) Route option" where
  "getCurrentRoute s = currentRoute (fst s)"

section \<open>The lifetime of a router\<close>

text \<open>
  What can happen to a router after \<^verbatim>\<open>new Router(options)\<close>: the application calls
  \<^verbatim>\<open>init()\<close> or \<^verbatim>\<open>render()\<close>, the browser fires \<^verbatim>\<open>navigate\<close> or
  \<^verbatim>\<open>popstate\<close> (delivered when the listener has been added; an intercepted
  \<^verbatim>\<open>navigate\<close> then runs the handler given to \<^verbatim>\<open>event.intercept\<close>), or the page
  moves on by itself: the location's pathname, the document title, the support for view
  transitions and the application state change. \<^verbatim>\<open>navigate()\<close> reads the origin and
  asks the browser, which answers with a \<^verbatim>\<open>navigate\<close> event; the class has no other
  entry point that touches its fields. Each operation runs to its end before the next begins,
  which is what the browser's event delivery gives for a single run; runs that overlap at an
  \<^verbatim>\<open>await\<close> are not described.
\<close>

datatype ('w, 'e) operation =
    CallInit
  | CallRender
  | NavigateFired NavigateEvent
  | PopstateFired
  | PageMoved string string "'e transition_outcome option" 'w

fun apply_operation :: "('w, 'e) operation \<Rightarrow> ('r, 'w, 'e) sys \<Rightarrow> ('r, 'w, 'e) sys" where
  "apply_operation CallInit s = snd (init s)"
| "apply_operation CallRender s = snd (Router_render s)"
| "apply_operation (NavigateFired event) s =
     (if NavigateListenerAdded \<in> set (effects (snd s))
      then (case onNavigate event s of
              None \<Rightarrow> s
            | Some intercepted \<Rightarrow> handleNavigation (handler intercepted) None s)
      else s)"
| "apply_operation PopstateFired s =
     (if PopstateListenerAdded \<in> set (effects (snd s)) then onPopstate s else s)"
| "apply_operation (PageMoved pn t transition w) s =
     (fst s, (snd s)\<lparr>location_pathname := pn, document_title := t,
                      startViewTransition := transition, world := w\<rparr>)"

definition lifetime ::
  "('r, 'w, 'e) RouterOptions \<Rightarrow> ('r, 'w, 'e) Env \<Rightarrow> ('w, 'e) operation list \<Rightarrow> ('r, 'w, 'e) sys" where
  "lifetime options env ops = foldl (\<lambda>s operation. apply_operation operation s) (constructor options env) ops"

section \<open>Reading the log\<close>

text \<open>The part of the log written between two environments.\<close>

definition effects_since :: "('r, 'w, 'e) Env \<Rightarrow> ('r, 'w, 'e) Env \<Rightarrow> ('r, 'w, 'e) effect list" where
  "effects_since env env' = drop (length (effects env)) (effects env')"

definition error_events :: "('r, 'w, 'e) effect list \<Rightarrow> ('r, 'w, 'e) notification list" where
  "error_events es =
     concat (map (\<lambda>x. case x of Dispatched (ErrorEvent e p r) \<Rightarrow> [ErrorEvent e p r] | _ \<Rightarrow> []) es)"

definition route_changed_events :: "('r, 'w, 'e) effect list \<Rightarrow> ('r, 'w, 'e) Route list" where
  "route_changed_events es =
     concat (map (\<lambda>x. case x of Dispatched (RouteChanged r) \<Rightarrow> [r] | _ \<Rightarrow> []) es)"

definition hook_events :: "('r, 'w, 'e) effect list \<Rightarrow> ('r, 'w, 'e) effect list" where
  "hook_events es =
     concat (map (\<lambda>x. case x of HookCalled p \<Rightarrow> [x] | HookSettled p out \<Rightarrow> [x] | _ \<Rightarrow> []) es)"

definition hook_calls :: "('r, 'w, 'e) effect list \<Rightarrow> ('w, 'e) RouterPlugin list" where
  "hook_calls es = concat (map (\<lambda>x. case x of HookCalled p \<Rightarrow> [p] | _ \<Rightarrow> []) es)"

definition assigned_values :: "('r, 'w, 'e) effect list \<Rightarrow> ('r, 'w, 'e) Route option list" where
  "assigned_values es = concat (map (\<lambda>x. case x of Assigned v \<Rightarrow> [v] | _ \<Rightarrow> []) es)"

definition navigate_listeners :: "('r, 'w, 'e) effect list \<Rightarrow> nat" where
  "navigate_listeners es =
     length (concat (map (\<lambda>x. case x of NavigateListenerAdded \<Rightarrow> [x] | _ \<Rightarrow> []) es))"

definition popstate_listeners :: "('r, 'w, 'e) effect list \<Rightarrow> nat" where
  "popstate_listeners es =
     length (concat (map (\<lambda>x. case x of PopstateListenerAdded \<Rightarrow> [x] | _ \<Rightarrow> []) es))"

section \<open>The properties, in the words of the specification\<close>

text \<open>
  The compiled pattern of a route matches a pathname: the pattern table holds, for each
  route, the pattern compiled from its \<^verbatim>\<open>path\<close>.
\<close>

definition pattern_matches :: "('r, 'w, 'e) Env \<Rightarrow> ('r, 'w, 'e) Route \<Rightarrow> string \<Rightarrow> bool" where
  "pattern_matches env route pn =
     (case new_URLPattern env (path route) of Inl e \<Rightarrow> False | Inr pattern \<Rightarrow> pattern pn)"

text \<open>
  Hooks run strictly one after the other: the plugins are taken in order, a plugin without a
  hook is passed over, and each hook starts on the application state that the hook before
  it has left. The result lists each hook that ran with its outcome.
\<close>

fun sequential_hook_runs ::
  "('w, 'e) RouterPlugin list \<Rightarrow> 'w \<Rightarrow> (('w, 'e) RouterPlugin \<times> 'e option) list" where
  "sequential_hook_runs [] w = []"
| "sequential_hook_runs (p # ps) w =
     (case beforeNavigation p of
        None \<Rightarrow> sequential_hook_runs ps w
      | Some hook \<Rightarrow> (p, fst (hook w)) # sequential_hook_runs ps (snd (hook w)))"



text \<open>
  A log, written from a point where the current route is \<open>current\<close>, in which
  \<^verbatim>\<open>currentRoute\<close> changes only in a state commit: an assignment that stores another
  value stores a route, and the \<^verbatim>\<open>route-changed\<close> notification for that route follows
  at once.
\<close>

fun changes_only_in_commits ::
  "('r, 'w, 'e) Route option \<Rightarrow> ('r, 'w, 'e) effect list \<Rightarrow> bool" where
  "changes_only_in_commits current [] = True"
| "changes_only_in_commits current (Assigned v # rest) =
     ((v = current
       \<or> (case rest of Dispatched (RouteChanged route) # later \<Rightarrow> v = Some route | _ \<Rightarrow> False))
      \<and> changes_only_in_commits v rest)"
| "changes_only_in_commits current (x # rest) = changes_only_in_commits current rest"

text \<open>
  A log in which every assignment to \<^verbatim>\<open>currentRoute\<close> is either the first half of a
  state commit or the one of \<^verbatim>\<open>init()\<close>
  (\<^verbatim>\<open>this.currentRoute = this.matchRoute(window.location.pathname)\<close>), after which
  \<^verbatim>\<open>setupNavigationListeners()\<close> adds the \<^verbatim>\<open>navigate\<close> listener.
\<close>

fun commits_or_init_assign :: "('r, 'w, 'e) effect list \<Rightarrow> bool" where
  "commits_or_init_assign [] = True"
| "commits_or_init_assign (Assigned v # rest) =
     ((case rest of Dispatched (RouteChanged route) # later \<Rightarrow> v = Some route
               | NavigateListenerAdded # later \<Rightarrow> True
               | _ \<Rightarrow> False)
      \<and> commits_or_init_assign rest)"
| "commits_or_init_assign (x # rest) = commits_or_init_assign rest"

section \<open>The log of one navigation, and the invariant of the lifetime\<close>

text \<open>
  What one run of \<^verbatim>\<open>handleNavigation\<close> writes to the log: first the plugin loop, then
  the state commit on the path taken through the view transition.
\<close>

definition plugin_phase_log ::
  "('r, 'w, 'e) Route \<Rightarrow> (('w, 'e) RouterPlugin \<times> 'e option) list \<Rightarrow> ('r, 'w, 'e) effect list" where
  "plugin_phase_log route runs =
     concat (map (\<lambda>(p, out). [HookCalled p, HookSettled p out] @
                   (case out of None \<Rightarrow> [] | Some e \<Rightarrow> [Dispatched (ErrorEvent e p route)])) runs)"

definition commit_phase_log ::
  "('r, 'w, 'e) Route \<Rightarrow> HandleOptions option \<Rightarrow> 'e transition_outcome option \<Rightarrow>
   ('r, 'w, 'e) effect list" where
  "commit_phase_log route options transition =
     (if skip_requested options then [Assigned (Some route), Dispatched (RouteChanged route)]
      else
        (case transition of
           None \<Rightarrow> [Assigned (Some route), Dispatched (RouteChanged route)]
         | Some Finished \<Rightarrow>
             [ViewTransitionRequested, Assigned (Some route), Dispatched (RouteChanged route)]
         | Some (RequestThrows e) \<Rightarrow>
             [ViewTransitionRequested, Warned e,
              Assigned (Some route), Dispatched (RouteChanged route)]
         | Some (FinishedRejects callback_ran e) \<Rightarrow>
             ViewTransitionRequested #
             (if callback_ran then [Assigned (Some route), Dispatched (RouteChanged route)] else []) @
             [Warned e, Assigned (Some route), Dispatched (RouteChanged route)]))"

text \<open>
  What holds of a router throughout its lifetime, \<open>env0\<close> being the environment in which it
  was constructed: its routes are those of the options; the pattern compiler is the one it
  started with; the pattern table, the current route and every value ever assigned to
  \<^verbatim>\<open>currentRoute\<close> hold declared routes only; each assignment is a commit or the one of
  \<^verbatim>\<open>init()\<close>; the two listeners have been added once when the router is initialized and
  not at all before; the table of an initialized router is the one built from the declared
  routes, and a router that is not initialized has an empty table unless a pattern fails to
  compile.
\<close>

definition lifetime_invariant ::
  "('r, 'w, 'e) RouterOptions \<Rightarrow> ('r, 'w, 'e) Env \<Rightarrow> ('r, 'w, 'e) sys \<Rightarrow> bool" where
  "lifetime_invariant options env0 s =
     (routes (fst s) = opt_routes options
      \<and> new_URLPattern (snd s) = new_URLPattern env0
      \<and> snd ` set (patterns (fst s)) \<subseteq> set (opt_routes options)
      \<and> set_option (currentRoute (fst s)) \<subseteq> set (opt_routes options)
      \<and> (\<forall>v \<in> set (assigned_values (effects (snd s))). set_option v \<subseteq> set (opt_routes options))
      \<and> commits_or_init_assign (effects (snd s))
      \<and> navigate_listeners (effects (snd s)) = (if initialized (fst s) then 1 else 0)
      \<and> popstate_listeners (effects (snd s)) = (if initialized (fst s) then 1 else 0)
      \<and> (if initialized (fst s)
         then build_patterns (new_URLPattern env0) (opt_routes options) [] = (None, patterns (fst s))
         else patterns (fst s) = []
              \<or> fst (build_patterns (new_URLPattern env0) (opt_routes options) []) \<noteq> None))"

text \<open>
  The field \<^verbatim>\<open>currentRoute\<close> holds the value of the last assignment in the log, and
  \<^verbatim>\<open>null\<close> when the log has none: the field changes nowhere but at the assignments the
  log records.
\<close>

definition field_follows_log :: "('r, 'w, 'e) sys \<Rightarrow> bool" where
  "field_follows_log s = (currentRoute (fst s) = last (None # assigned_values (effects (snd s))))"

section \<open>A small application, for evaluating the model\<close>

text \<open>
  A pattern compiler that knows literal paths, the wildcard \<^verbatim>\<open>/*\<close> and rejects the
  unbalanced \<^verbatim>\<open>(\<close>, as \<^verbatim>\<open>URLPattern\<close> does; a URL parser for one origin.
\<close>

definition demo_URLPattern :: "string \<Rightarrow> string + URLPattern" where
  "demo_URLPattern p =
     (if p = ''('' then Inl ''TypeError''
      else if p = ''/*'' then Inr (\<lambda>pn. True)
      else Inr (\<lambda>pn. pn = p))"

definition demo_origin :: string where
  "demo_origin = ''https://app.test''"

definition demo_URL :: "string \<Rightarrow> string option \<Rightarrow> string + URL" where
  "demo_URL p base =
     (case base of
        Some b \<Rightarrow> Inr \<lparr>href = b @ p, origin = b, pathname = p\<rparr>
      | None \<Rightarrow>
          if take (length demo_origin) p = demo_origin
          then Inr \<lparr>href = p, origin = demo_origin, pathname = drop (length demo_origin) p\<rparr>
          else Inl ''TypeError'')"

definition demo_route ::
  "string \<Rightarrow> string \<Rightarrow> (nat, string) RouterPlugin list option \<Rightarrow> (string, nat, string) Route" where
  "demo_route p t ps = \<lparr>path = p, title = t, render = (\<lambda>w. (Some t, w)), route_plugins = ps\<rparr>"

definition demo_env ::
  "string \<Rightarrow> string transition_outcome option \<Rightarrow> (string, nat, string) Env" where
  "demo_env pn transition =
     \<lparr>location_origin = demo_origin, location_pathname = pn, document_title = ''Loading'',
      new_URLPattern = demo_URLPattern, new_URL = demo_URL, startViewTransition = transition,
      world = 0, effects = []\<rparr>"

text \<open>Three plugins: one without a hook, one whose hook counts its runs, one whose hook fails.\<close>

definition plugin_named :: "(nat, string) RouterPlugin" where
  "plugin_named = \<lparr>name = Some ''named'', beforeNavigation = None\<rparr>"

definition plugin_counting :: "(nat, string) RouterPlugin" where
  "plugin_counting = \<lparr>name = Some ''counting'', beforeNavigation = Some (\<lambda>w. (None, Suc w))\<rparr>"

definition plugin_failing :: "(nat, string) RouterPlugin" where
  "plugin_failing = \<lparr>name = Some ''lazy'', beforeNavigation = Some (\<lambda>w. (Some ''import failed'', w))\<rparr>"

definition about :: "(string, nat, string) Route" where
  "about = demo_route ''/about'' ''About'' (Some [plugin_failing, plugin_counting])"

definition demo_options :: "(string, nat, string) RouterOptions" where
  "demo_options =
     \<lparr>opt_routes = [demo_route ''/'' ''Home'' None,
                    about,
                    demo_route ''/*'' [] None,
                    demo_route ''/about'' ''Shadowed'' None],
      opt_plugins = Some [plugin_counting, plugin_named]\<rparr>"

text \<open>
  A route whose render function returns \<^verbatim>\<open>null\<close>, and a browser that completes the
  navigation to \<^verbatim>\<open>/about\<close> and aborts any other.
\<close>

definition blank :: "(string, nat, string) Route" where
  "blank = \<lparr>path = ''/blank'', title = ''Blank'', render = (\<lambda>w. (None, w)), route_plugins = None\<rparr>"

definition blank_options :: "(string, nat, string) RouterOptions" where
  "blank_options = \<lparr>opt_routes = [blank], opt_plugins = None\<rparr>"

definition demo_browser ::
  "string \<Rightarrow> string NavigationNavigateOptions \<Rightarrow> (string, nat, string) sys \<Rightarrow>
   string option \<times> (string, nat, string) sys" where
  "demo_browser url options s =
     (if url = ''https://app.test/about'' then (None, s) else (Some ''AbortError'', s))"

text \<open>Routes whose second pattern does not compile.\<close>

definition broken_options :: "(string, nat, string) RouterOptions" where
  "broken_options =
     \<lparr>opt_routes = [demo_route ''/'' ''Home'' None, demo_route ''('' ''Broken'' None],
      opt_plugins = None\<rparr>"

section \<open>Basic facts\<close>

lemma effects_emit [simp]: "effects (emit es env) = effects env @ es"
  by (simp add: emit_def)

lemma emit_fields [simp]:
  "world (emit es env) = world env"
  "document_title (emit es env) = document_title env"
  "startViewTransition (emit es env) = startViewTransition env"
  "location_pathname (emit es env) = location_pathname env"
  "location_origin (emit es env) = location_origin env"
  "new_URLPattern (emit es env) = new_URLPattern env"
  "new_URL (emit es env) = new_URL env"
  by (simp_all add: emit_def)

lemmas demo_defs =
  demo_URLPattern_def demo_origin_def demo_URL_def demo_route_def demo_env_def
  plugin_named_def plugin_counting_def plugin_failing_def about_def demo_options_def

lemmas router_defs =
  constructor_def matchRoute_def allPlugins_def set_title_def skip_requested_def
  updateDOM_def handleNavigation_def setupNavigationListeners_def init_def emit_def Let_def

lemmas lifetime_defs =
  lifetime_def onNavigate_def onPopstate_def Router_render_def truthy_string_def
  truthy_object_def getCurrentRoute_def

section \<open>The log of a navigation\<close>

lemma readers_append [simp]:
  "error_events (xs @ ys) = error_events xs @ error_events ys"
  "route_changed_events (xs @ ys) = route_changed_events xs @ route_changed_events ys"
  "hook_events (xs @ ys) = hook_events xs @ hook_events ys"
  "hook_calls (xs @ ys) = hook_calls xs @ hook_calls ys"
  "assigned_values (xs @ ys) = assigned_values xs @ assigned_values ys"
  "navigate_listeners (xs @ ys) = navigate_listeners xs + navigate_listeners ys"
  "popstate_listeners (xs @ ys) = popstate_listeners xs + popstate_listeners ys"
  by (simp_all add: error_events_def route_changed_events_def hook_events_def hook_calls_def
        assigned_values_def navigate_listeners_def popstate_listeners_def)

lemma readers_Nil [simp]:
  "error_events [] = []" "route_changed_events [] = []" "hook_events [] = []"
  "hook_calls [] = []" "assigned_values [] = []"
  "navigate_listeners [] = 0" "popstate_listeners [] = 0"
  by (simp_all add: error_events_def route_changed_events_def hook_events_def hook_calls_def
        assigned_values_def navigate_listeners_def popstate_listeners_def)

lemma readers_Cons [simp]:
  "error_events (x # xs) =
     (case x of Dispatched (ErrorEvent e p r) \<Rightarrow> [ErrorEvent e p r] | _ \<Rightarrow> []) @ error_events xs"
  "route_changed_events (x # xs) =
     (case x of Dispatched (RouteChanged r) \<Rightarrow> [r] | _ \<Rightarrow> []) @ route_changed_events xs"
  "hook_events (x # xs) =
     (case x of HookCalled p \<Rightarrow> [x] | HookSettled p out \<Rightarrow> [x] | _ \<Rightarrow> []) @ hook_events xs"
  "hook_calls (x # xs) = (case x of HookCalled p \<Rightarrow> [p] | _ \<Rightarrow> []) @ hook_calls xs"
  "assigned_values (x # xs) = (case x of Assigned v \<Rightarrow> [v] | _ \<Rightarrow> []) @ assigned_values xs"
  "navigate_listeners (x # xs) =
     (case x of NavigateListenerAdded \<Rightarrow> 1 | _ \<Rightarrow> 0) + navigate_listeners xs"
  "popstate_listeners (x # xs) =
     (case x of PopstateListenerAdded \<Rightarrow> 1 | _ \<Rightarrow> 0) + popstate_listeners xs"
  by (simp_all add: error_events_def route_changed_events_def hook_events_def hook_calls_def
        assigned_values_def navigate_listeners_def popstate_listeners_def split: effect.splits)

lemma plugin_phase_log_simps [simp]:
  "plugin_phase_log route [] = []"
  "plugin_phase_log route ((p, out) # runs) =
     [HookCalled p, HookSettled p out]
     @ (case out of None \<Rightarrow> [] | Some e \<Rightarrow> [Dispatched (ErrorEvent e p route)])
     @ plugin_phase_log route runs"
  by (simp_all add: plugin_phase_log_def)

lemma plugin_phase_readers:
  "route_changed_events (plugin_phase_log route runs) = []"
  "hook_calls (plugin_phase_log route runs) = map fst runs"
  "assigned_values (plugin_phase_log route runs) = []"
  "navigate_listeners (plugin_phase_log route runs) = 0"
  "popstate_listeners (plugin_phase_log route runs) = 0"
  by (induction runs; auto split: option.splits)+



lemma run_plugins_fields [simp]:
  "document_title (run_plugins route ps env) = document_title env"
  "startViewTransition (run_plugins route ps env) = startViewTransition env"
  "location_pathname (run_plugins route ps env) = location_pathname env"
  "location_origin (run_plugins route ps env) = location_origin env"
  "new_URLPattern (run_plugins route ps env) = new_URLPattern env"
  "new_URL (run_plugins route ps env) = new_URL env"
  by (induction route ps env rule: run_plugins.induct; simp split: option.splits prod.splits)+

lemma run_plugins_log:
  "effects (run_plugins route ps env) =
     effects env @ plugin_phase_log route (sequential_hook_runs ps (world env))"
  by (induction route ps env rule: run_plugins.induct)
     (auto simp: plugin_phase_log_def split: option.splits prod.splits)

lemma set_title_fields [simp]:
  "effects (set_title route env) = effects env"
  "startViewTransition (set_title route env) = startViewTransition env"
  "world (set_title route env) = world env"
  "location_pathname (set_title route env) = location_pathname env"
  "location_origin (set_title route env) = location_origin env"
  "new_URLPattern (set_title route env) = new_URLPattern env"
  "new_URL (set_title route env) = new_URL env"
  "document_title (set_title route env) = (if title route \<noteq> [] then title route else document_title env)"
  by (simp_all add: set_title_def)

lemma updateDOM_simps [simp]:
  "updateDOM route (R, env) =
     (R\<lparr>currentRoute := Some route\<rparr>, emit [Assigned (Some route), Dispatched (RouteChanged route)] env)"
  by (simp add: updateDOM_def)

lemma handleNavigation_log:
  assumes "handleNavigation route options (R, env) = (R', env')"
  shows "effects env' = effects env
           @ plugin_phase_log route (sequential_hook_runs (allPlugins R route) (world env))
           @ commit_phase_log route options (startViewTransition env)"
  using assms
  by (auto simp: handleNavigation_def Let_def run_plugins_log commit_phase_log_def
           split: option.splits transition_outcome.splits if_splits)

lemma handleNavigation_router:
  assumes "handleNavigation route options (R, env) = (R', env')"
  shows "R' = R\<lparr>currentRoute := Some route\<rparr>"
  using assms
  by (auto simp: handleNavigation_def Let_def 
           split: option.splits transition_outcome.splits if_splits)

lemma handleNavigation_env:
  assumes "handleNavigation route options (R, env) = (R', env')"
  shows "document_title env' = (if title route \<noteq> [] then title route else document_title env)"
    and "startViewTransition env' = startViewTransition env"
    and "location_pathname env' = location_pathname env"
    and "location_origin env' = location_origin env"
    and "new_URLPattern env' = new_URLPattern env"
    and "new_URL env' = new_URL env"
  using assms
  by (auto simp: handleNavigation_def Let_def 
           split: option.splits transition_outcome.splits if_splits)

lemma commit_phase_readers:
  "error_events (commit_phase_log route options transition) = []"
  "hook_events (commit_phase_log route options transition) = []"
  "hook_calls (commit_phase_log route options transition) = []"
  "navigate_listeners (commit_phase_log route options transition) = 0"
  "popstate_listeners (commit_phase_log route options transition) = 0"
  "set (assigned_values (commit_phase_log route options transition)) = {Some route}"
  "last (commit_phase_log route options transition) = Dispatched (RouteChanged route)"
  "commit_phase_log route options transition \<noteq> []"
  by (auto simp: commit_phase_log_def split: option.splits transition_outcome.splits)

lemma commit_phase_route_changed:
  "route_changed_events (commit_phase_log route options transition) =
     (if \<not> skip_requested options \<and> (\<exists>e. transition = Some (FinishedRejects True e))
      then [route, route] else [route])"
  by (auto simp: commit_phase_log_def split: option.splits transition_outcome.splits)


lemma effects_since_append [simp]:
  "effects env' = effects env @ new \<Longrightarrow> effects_since env env' = new"
  by (simp add: effects_since_def)

section \<open>Route matching\<close>

lemma matchRoute_loop_append:
  "matchRoute_loop (xs @ ys) pn =
     (case matchRoute_loop xs pn of None \<Rightarrow> matchRoute_loop ys pn | Some r \<Rightarrow> Some r)"
  by (induction xs pn rule: matchRoute_loop.induct) auto

lemma build_patterns_match:
  "build_patterns compile rs table = (None, table') \<Longrightarrow>
   matchRoute_loop table' pn =
     (case matchRoute_loop table pn of
        None \<Rightarrow> List.find (\<lambda>route. case compile (path route) of Inl e \<Rightarrow> False
                                                              | Inr pattern \<Rightarrow> pattern pn) rs
      | Some r \<Rightarrow> Some r)"
proof (induction rs arbitrary: table)
  case Nil
  then show ?case by (simp split: option.splits)
next
  case (Cons r rs)
  then show ?case
    by (auto simp: matchRoute_loop_append split: sum.splits option.splits)
qed

lemma handleNavigation_patterns:
  "handleNavigation route options s = (R', env') \<Longrightarrow> patterns R' = patterns (fst s)"
  by (auto simp: handleNavigation_def updateDOM_def Let_def
           split: prod.splits option.splits transition_outcome.splits if_splits)

lemma init_fulfilled_patterns:
  assumes "init (R, env) = (Inr (), (R', env'))" and "\<not> initialized R"
  shows "build_patterns (new_URLPattern env) (routes R) (patterns R) = (None, patterns R')"
  using assms
  by (auto simp: init_def Let_def split: prod.splits option.splits if_splits
           dest!: handleNavigation_patterns)

lemma build_patterns_fulfilled_routes:
  "build_patterns compile rs table = (None, table') \<Longrightarrow> map snd table' = map snd table @ rs"
  by (induction rs arbitrary: table) (auto split: sum.splits)

lemma matchRoute_loop_find:
  "matchRoute_loop table pn = map_option snd (List.find (\<lambda>(pattern, route). pattern pn) table)"
  by (induction table pn rule: matchRoute_loop.induct) auto

text \<open>
  Claim C1. After \<^verbatim>\<open>init()\<close> on a new router has been fulfilled, the pattern table
  holds the declared routes in the order of their declaration, and \<^verbatim>\<open>matchRoute\<close>
  returns, for every pathname, the route of the first entry of the table whose pattern
  matches: the first route in the order of declaration whose compiled pattern matches the
  pathname, and \<^verbatim>\<open>null\<close> when no pattern matches. A route is returned exactly when
  it stands at a position whose pattern matches while no pattern at an earlier position
  does.
\<close>

theorem matchRoute_first_declared_match:
  assumes "init (constructor options env) = (Inr (), (R', env'))"
  shows "map snd (patterns R') = opt_routes options
       \<and> matchRoute R' pn = map_option snd (List.find (\<lambda>(pattern, route). pattern pn) (patterns R'))
       \<and> matchRoute R' pn = List.find (\<lambda>route. pattern_matches env route pn) (opt_routes options)
       \<and> (matchRoute R' pn = None \<longleftrightarrow>
            (\<forall>route \<in> set (opt_routes options). \<not> pattern_matches env route pn))
       \<and> (\<forall>route. matchRoute R' pn = Some route \<longleftrightarrow>
            (\<exists>i < length (opt_routes options).
               opt_routes options ! i = route \<and> pattern_matches env route pn
               \<and> (\<forall>j < i. \<not> pattern_matches env (opt_routes options ! j) pn)))"
proof -
  have built: "build_patterns (new_URLPattern env) (opt_routes options) [] = (None, patterns R')"
    using init_fulfilled_patterns [of "fst (constructor options env)" env R' env'] assms
    by (simp add: constructor_def)
  then have found: "matchRoute R' pn =
      List.find (\<lambda>route. pattern_matches env route pn) (opt_routes options)"
    by (simp add: matchRoute_def pattern_matches_def build_patterns_match [where table = "[]"])
  have table: "map snd (patterns R') = opt_routes options"
    using build_patterns_fulfilled_routes [OF built] by simp
  have loop: "matchRoute R' pn =
      map_option snd (List.find (\<lambda>(pattern, route). pattern pn) (patterns R'))"
    by (simp add: matchRoute_def matchRoute_loop_find)
  have first: "(List.find (\<lambda>route. pattern_matches env route pn) (opt_routes options) = None \<longleftrightarrow>
            (\<forall>route \<in> set (opt_routes options). \<not> pattern_matches env route pn))
       \<and> (\<forall>route. List.find (\<lambda>route. pattern_matches env route pn) (opt_routes options) = Some route \<longleftrightarrow>
            (\<exists>i < length (opt_routes options).
               opt_routes options ! i = route \<and> pattern_matches env route pn
               \<and> (\<forall>j < i. \<not> pattern_matches env (opt_routes options ! j) pn)))"
    by (auto simp: find_None_iff find_Some_iff)
  show ?thesis
    using table loop first unfolding found by blast
qed

lemma demo_init_root:
  "init (constructor demo_options (demo_env ''/'' None)) =
     (Inr (), snd (init (constructor demo_options (demo_env ''/'' None))))"
  by (simp add: router_defs demo_defs)

theorem matchRoute_first_declared_match_witness:
  "matchRoute (fst (snd (init (constructor demo_options (demo_env ''/'' None))))) ''/about''
     = Some about"
proof -
  have "init (constructor demo_options (demo_env ''/'' None)) =
      (Inr (), fst (snd (init (constructor demo_options (demo_env ''/'' None)))),
               snd (snd (init (constructor demo_options (demo_env ''/'' None)))))"
    using demo_init_root by simp
  from matchRoute_first_declared_match [OF this, of "''/about''"]
  have "matchRoute (fst (snd (init (constructor demo_options (demo_env ''/'' None))))) ''/about''
      = List.find (\<lambda>route. pattern_matches (demo_env ''/'' None) route ''/about'')
          (opt_routes demo_options)"
    by blast
  then show ?thesis
    by (simp add: pattern_matches_def demo_defs)
qed

section \<open>Plugins\<close>





section \<open>Initialization\<close>

lemma init_fulfilled_matched:
  assumes "init (constructor options env) = (Inr (), (R', env'))"
      and "List.find (\<lambda>r. pattern_matches env r (location_pathname env)) (opt_routes options) = Some route"
  shows "handleNavigation route None
           (fst (constructor options env)\<lparr>patterns := patterns R', currentRoute := Some route, initialized := True\<rparr>,
            emit [Assigned (Some route), NavigateListenerAdded, PopstateListenerAdded] env) = (R', env')"
proof -
  obtain table where b: "build_patterns (new_URLPattern env) (opt_routes options) [] = (None, table)"
    using assms(1) by (auto simp: init_def constructor_def Let_def split: prod.splits option.splits)
  have m: "matchRoute_loop table (location_pathname env) = Some route"
    using build_patterns_match [OF b, of "location_pathname env"] assms(2)
    by (simp add: pattern_matches_def)
  have "patterns R' = table"
    using init_fulfilled_patterns [of "fst (constructor options env)" env R' env'] assms(1) b
    by (simp add: constructor_def)
  then show ?thesis
    using assms(1) b m
    by (simp add: init_def constructor_def Let_def matchRoute_def setupNavigationListeners_def emit_def)
qed

text \<open>
  Claim C4, as stated, fails for a route whose title is empty: \<^verbatim>\<open>if (route.title)\<close>
  skips the assignment, and the document keeps the title it had. Here the startup pathname
  \<^verbatim>\<open>/zzz\<close> matches the route \<^verbatim>\<open>/*\<close>, whose title is empty; \<^verbatim>\<open>init()\<close> is
  fulfilled, one \<^verbatim>\<open>route-changed\<close> has fired, and the title is still \<^verbatim>\<open>Loading\<close>.
\<close>

theorem init_title_counterexample:
  "fst (init (constructor demo_options (demo_env ''/zzz'' None))) = Inr ()
   \<and> matchRoute (fst (snd (init (constructor demo_options (demo_env ''/zzz'' None)))))
        (location_pathname (demo_env ''/zzz'' None)) = Some (demo_route ''/*'' [] None)
   \<and> route_changed_events (effects (snd (snd (init (constructor demo_options (demo_env ''/zzz'' None))))))
        = [demo_route ''/*'' [] None]
   \<and> document_title (snd (snd (init (constructor demo_options (demo_env ''/zzz'' None))))) = ''Loading''
   \<and> document_title (snd (snd (init (constructor demo_options (demo_env ''/zzz'' None)))))
        \<noteq> title (demo_route ''/*'' [] None)"
  by (simp add: router_defs demo_defs)

text \<open>
  Claim C4, amended. When \<^verbatim>\<open>init()\<close> on a new router has been fulfilled and the startup
  pathname matched a declared route, then, unless the view transition rejects after having
  run the update callback, exactly one \<^verbatim>\<open>route-changed\<close> notification has fired since
  the call, carrying that route; and, whatever the view transition does, the document title
  is the route's title when that is not empty, and is unchanged when it is empty.
\<close>

theorem init_fires_route_changed_once_and_sets_nonempty_title:
  assumes "init (constructor options env) = (Inr (), (R', env'))"
      and "List.find (\<lambda>r. pattern_matches env r (location_pathname env)) (opt_routes options) = Some route"
  shows "((\<forall>e. startViewTransition env \<noteq> Some (FinishedRejects True e)) \<longrightarrow>
            route_changed_events (effects_since env env') = [route])
       \<and> (if title route \<noteq> [] then document_title env' = title route
          else document_title env' = document_title env)"
proof -
  note h = init_fulfilled_matched [OF assms(1,2)]
  have log: "effects env' = effects env @ [Assigned (Some route), NavigateListenerAdded, PopstateListenerAdded]
      @ plugin_phase_log route (sequential_hook_runs (allPlugins (fst (constructor options env)) route) (world env))
      @ commit_phase_log route None (startViewTransition env)"
    using handleNavigation_log [OF h] by (simp add: allPlugins_def)
  have "(\<forall>e. startViewTransition env \<noteq> Some (FinishedRejects True e)) \<longrightarrow>
      route_changed_events (effects_since env env') = [route]"
    using log
    by (simp add: plugin_phase_readers commit_phase_route_changed)
  moreover have "document_title env' = (if title route \<noteq> [] then title route else document_title env)"
    using handleNavigation_env(1) [OF h] by simp
  ultimately show ?thesis by simp
qed

lemma demo_init_about:
  "fst (init (constructor demo_options (demo_env ''/about'' (Some Finished)))) = Inr ()"
  by (simp add: router_defs demo_defs)

theorem init_fires_route_changed_once_and_sets_nonempty_title_witness:
  "route_changed_events (effects_since (demo_env ''/about'' (Some Finished))
       (snd (snd (init (constructor demo_options (demo_env ''/about'' (Some Finished))))))) = [about]
   \<and> document_title (snd (snd (init (constructor demo_options (demo_env ''/about'' (Some Finished))))))
       = ''About''"
proof -
  have fulfilled: "init (constructor demo_options (demo_env ''/about'' (Some Finished))) =
      (Inr (), fst (snd (init (constructor demo_options (demo_env ''/about'' (Some Finished))))),
               snd (snd (init (constructor demo_options (demo_env ''/about'' (Some Finished))))))"
    using demo_init_about by (metis prod.collapse)
  have matched: "List.find (\<lambda>r. pattern_matches (demo_env ''/about'' (Some Finished)) r
        (location_pathname (demo_env ''/about'' (Some Finished)))) (opt_routes demo_options) = Some about"
    by (simp add: pattern_matches_def demo_defs)
  have transition: "\<forall>e. startViewTransition (demo_env ''/about'' (Some Finished))
        \<noteq> Some (FinishedRejects True e)"
    by (simp add: demo_env_def)
  from init_fires_route_changed_once_and_sets_nonempty_title [OF fulfilled matched] transition
  show ?thesis
    by (simp add: demo_defs)
qed

section \<open>Construction\<close>

lemma lifetime_snoc:
  "lifetime options env (ops @ [operation]) = apply_operation operation (lifetime options env ops)"
  by (simp add: lifetime_def)

lemma lifetime_before_init:
  assumes "effects env = []" and "CallInit \<notin> set ops"
  shows "fst (lifetime options env ops) = fst (constructor options env)
       \<and> effects (snd (lifetime options env ops)) = []"
  using assms(2)
proof (induction ops rule: rev_induct)
  case Nil
  then show ?case using assms(1) by (simp add: lifetime_def constructor_def)
next
  case (snoc operation ops)
  then have before: "fst (lifetime options env ops) = fst (constructor options env)"
      "effects (snd (lifetime options env ops)) = []"
    by simp_all
  have "operation \<noteq> CallInit"
    using snoc.prems by auto
  then show ?case
    using before
    by (cases operation)
       (auto simp: lifetime_snoc Router_render_def constructor_def split: prod.splits)
qed

text \<open>
  Claim C10. The constructor leaves the environment as it is (so it adds no listener) and
  gives a router that holds the routes and plugins of the options, an empty pattern table
  and no current route, and is not initialized: \<^verbatim>\<open>matchRoute\<close> returns \<^verbatim>\<open>null\<close> for
  every pathname, \<^verbatim>\<open>getCurrentRoute()\<close> and \<^verbatim>\<open>render()\<close> return \<^verbatim>\<open>null\<close>,
  and \<^verbatim>\<open>render()\<close> changes nothing. As long as \<^verbatim>\<open>init()\<close> has not been called,
  whatever else happens, the router stays as constructed and nothing is written to the log.
\<close>

theorem constructor_only_stores_configuration:
  "snd (constructor options env) = env
   \<and> routes (fst (constructor options env)) = opt_routes options
   \<and> plugins (fst (constructor options env)) = (case opt_plugins options of None \<Rightarrow> [] | Some ps \<Rightarrow> ps)
   \<and> patterns (fst (constructor options env)) = []
   \<and> initialized (fst (constructor options env)) = False
   \<and> (\<forall>pn. matchRoute (fst (constructor options env)) pn = None)
   \<and> getCurrentRoute (constructor options env) = None
   \<and> Router_render (constructor options env) = (None, constructor options env)
   \<and> navigate_listeners (effects (snd (constructor options env))) = navigate_listeners (effects env)
   \<and> popstate_listeners (effects (snd (constructor options env))) = popstate_listeners (effects env)
   \<and> (effects env = [] \<and> CallInit \<notin> set ops \<longrightarrow>
        fst (lifetime options env ops) = fst (constructor options env)
        \<and> effects (snd (lifetime options env ops)) = [])"
  using lifetime_before_init [of env ops options]
  by (simp add: constructor_def matchRoute_def getCurrentRoute_def Router_render_def)

theorem constructor_only_stores_configuration_witness:
  "matchRoute (fst (constructor demo_options (demo_env ''/about'' None))) ''/about'' = None
   \<and> snd (constructor demo_options (demo_env ''/about'' None)) = demo_env ''/about'' None
   \<and> navigate_listeners (effects (snd (constructor demo_options (demo_env ''/about'' None)))) = 0
   \<and> getCurrentRoute (lifetime demo_options (demo_env ''/about'' None)
         [PopstateFired, CallRender, PageMoved ''/'' ''Home'' None 2]) = None"
proof -
  have fresh: "effects (demo_env ''/about'' None) = []
      \<and> CallInit \<notin> set [PopstateFired, CallRender, PageMoved ''/'' ''Home'' None (2::nat)]"
    by (simp add: demo_env_def)
  from constructor_only_stores_configuration [of demo_options "demo_env ''/about'' None"
      "[PopstateFired, CallRender, PageMoved ''/'' ''Home'' None 2]"] fresh
  show ?thesis
    by (simp add: demo_env_def getCurrentRoute_def constructor_def)
qed

section \<open>Programmatic navigation\<close>

text \<open>
  Claim C9. When \<^verbatim>\<open>new URL(p, window.location.origin)\<close> gives the URL \<open>u\<close>,
  \<^verbatim>\<open>navigate(p)\<close> and \<^verbatim>\<open>navigate(u)\<close> are the same: both hand the browser the
  request for \<^verbatim>\<open>u.href\<close> with \<^verbatim>\<open>history: 'push'\<close>, the view-transition hint and
  the optional state, and the call is fulfilled or rejected as the completion signal
  \<^verbatim>\<open>finished\<close> of that request is, in the state the browser has reached by then.
\<close>

theorem navigate_string_equals_navigate_URL:
  assumes "new_URL env p (Some (location_origin env)) = Inr u"
  shows "navigate browser (PathString p) options (R, env) = navigate browser (PathURL u) options (R, env)
       \<and> navigate browser (PathString p) options (R, env) =
           (case browser (href u)
                   \<lparr>history = ''push'', info_viewTransition = True,
                    navigation_state = (case options of None \<Rightarrow> None | Some opts \<Rightarrow> state opts)\<rparr>
                   (R, env) of
              (None, s') \<Rightarrow> (Inr (), s')
            | (Some e, s') \<Rightarrow> (Inl e, s'))"
  using assms by (simp add: navigate_def)

theorem navigate_string_equals_navigate_URL_witness:
  "navigate demo_browser (PathString ''/about'') None
       (fst (constructor demo_options (demo_env ''/'' None)), demo_env ''/'' None)
     = navigate demo_browser
         (PathURL \<lparr>href = ''https://app.test/about'', origin = ''https://app.test'', pathname = ''/about''\<rparr>)
         None (fst (constructor demo_options (demo_env ''/'' None)), demo_env ''/'' None)
   \<and> fst (navigate demo_browser (PathString ''/about'') None
       (fst (constructor demo_options (demo_env ''/'' None)), demo_env ''/'' None))
     = Inr ()"
proof -
  have "new_URL (demo_env ''/'' None) ''/about'' (Some (location_origin (demo_env ''/'' None)))
      = Inr \<lparr>href = ''https://app.test/about'', origin = ''https://app.test'', pathname = ''/about''\<rparr>"
    by (simp add: demo_defs)
  note both = navigate_string_equals_navigate_URL [OF this, of demo_browser None
      "fst (constructor demo_options (demo_env ''/'' None))"]
  have "fst (navigate demo_browser (PathString ''/about'') None
       (fst (constructor demo_options (demo_env ''/'' None)), demo_env ''/'' None)) = Inr ()"
    using both [THEN conjunct2] by (simp add: demo_browser_def)
  with both [THEN conjunct1] show ?thesis by (rule conjI)
qed

section \<open>Rendering\<close>

text \<open>
  Claim C8, as stated, fails for a route whose render function returns \<^verbatim>\<open>null\<close>:
  \<^verbatim>\<open>render()\<close> returns what that function returns, so it returns \<^verbatim>\<open>null\<close> while
  \<^verbatim>\<open>getCurrentRoute()\<close> returns the route.
\<close>

theorem render_absent_with_current_route_counterexample:
  "getCurrentRoute (snd (init (constructor blank_options (demo_env ''/blank'' None)))) = Some blank
   \<and> fst (Router_render (snd (init (constructor blank_options (demo_env ''/blank'' None))))) = None
   \<and> \<not> (fst (Router_render (snd (init (constructor blank_options (demo_env ''/blank'' None))))) = None
          \<longleftrightarrow> getCurrentRoute (snd (init (constructor blank_options (demo_env ''/blank'' None)))) = None)"
  by (simp add: router_defs demo_defs blank_def blank_options_def getCurrentRoute_def Router_render_def)

text \<open>
  Claim C8, amended. In every state, \<^verbatim>\<open>render()\<close> returns \<^verbatim>\<open>null\<close> and changes
  nothing when \<^verbatim>\<open>getCurrentRoute()\<close> returns \<^verbatim>\<open>null\<close>; when a route is current it
  returns exactly the output of that route's render function and leaves the router's fields
  as they are. So \<^verbatim>\<open>render()\<close> returns \<^verbatim>\<open>null\<close> exactly when there is no current
  route or the current route's render function returns \<^verbatim>\<open>null\<close>.
\<close>

theorem render_follows_current_route:
  "(getCurrentRoute s = None \<longrightarrow> Router_render s = (None, s))
   \<and> (\<forall>route. getCurrentRoute s = Some route \<longrightarrow>
          fst (Router_render s) = fst (render route (world (snd s)))
          \<and> fst (snd (Router_render s)) = fst s)
   \<and> (fst (Router_render s) = None \<longleftrightarrow>
        getCurrentRoute s = None
        \<or> (\<exists>route. getCurrentRoute s = Some route \<and> fst (render route (world (snd s))) = None))"
  by (cases s) (auto simp: Router_render_def getCurrentRoute_def split: option.splits prod.splits)

theorem render_follows_current_route_witness:
  "fst (Router_render (snd (init (constructor demo_options (demo_env ''/'' None))))) = Some ''Home''
   \<and> fst (snd (Router_render (snd (init (constructor demo_options (demo_env ''/'' None))))))
     = fst (snd (init (constructor demo_options (demo_env ''/'' None))))"
proof -
  have current: "getCurrentRoute (snd (init (constructor demo_options (demo_env ''/'' None))))
      = Some (demo_route ''/'' ''Home'' None)"
    by (simp add: router_defs demo_defs getCurrentRoute_def)
  have w: "world (snd (snd (init (constructor demo_options (demo_env ''/'' None))))) = Suc 0"
    by (simp add: router_defs demo_defs)
  from render_follows_current_route [of "snd (init (constructor demo_options (demo_env ''/'' None)))"]
  show ?thesis
    unfolding current w by (simp add: demo_route_def)
qed

section \<open>Interception\<close>

text \<open>What the \<^verbatim>\<open>navigate\<close> listener does, for every event and state.\<close>

lemma onNavigate_intercepts_iff:
  "onNavigate event (R, env) \<noteq> None \<longleftrightarrow>
     (\<exists>url. new_URL env (destination_url event) None = Inr url
        \<and> origin url = location_origin env
        \<and> \<not> truthy_string (downloadRequest event)
        \<and> formData event = None
        \<and> canIntercept event
        \<and> matchRoute R (pathname url) \<noteq> None)"
  by (auto simp: onNavigate_def truthy_object_def split: sum.splits option.splits)

text \<open>
  Claim C6. The listener tests \<^verbatim>\<open>event.downloadRequest\<close> for truthiness, and the
  \<^verbatim>\<open>downloadRequest\<close> of a download without a file name (\<^verbatim>\<open><a href="/about"
  download>\<close>) is the empty string: that download to a matching same-origin path is
  intercepted, while the same download with a file name is left to the browser.
\<close>

theorem download_with_empty_filename_is_intercepted:
  "onNavigate \<lparr>destination_url = ''https://app.test/about'', downloadRequest = Some [],
               formData = None, canIntercept = True\<rparr>
     (snd (init (constructor demo_options (demo_env ''/'' None))))
     = Some \<lparr>focusReset = ''manual'', scroll = ''manual'', handler = about\<rparr>
   \<and> onNavigate \<lparr>destination_url = ''https://app.test/about'', downloadRequest = Some ''report.pdf'',
               formData = None, canIntercept = True\<rparr>
     (snd (init (constructor demo_options (demo_env ''/'' None))))
     = None"
  by (simp add: router_defs demo_defs onNavigate_def truthy_string_def truthy_object_def)

section \<open>Invariants of the lifetime\<close>

lemma commits_or_init_assign_append:
  "commits_or_init_assign xs \<Longrightarrow> commits_or_init_assign ys \<Longrightarrow> commits_or_init_assign (xs @ ys)"
  by (induction xs rule: commits_or_init_assign.induct)
     (auto split: list.splits effect.splits notification.splits)

lemma commits_plugin_phase: "commits_or_init_assign (plugin_phase_log route runs)"
  by (induction runs) (auto split: option.splits)

lemma commits_commit_phase: "commits_or_init_assign (commit_phase_log route options transition)"
  by (auto simp: commit_phase_log_def split: option.splits transition_outcome.splits)

lemma build_patterns_error:
  "fst (build_patterns compile rs table) = fst (build_patterns compile rs [])"
proof (induction rs arbitrary: table)
  case Nil
  show ?case by simp
next
  case (Cons r rs)
  show ?case
    using Cons [of "table @ [(projr (compile (path r)), r)]"] Cons [of "[(projr (compile (path r)), r)]"]
    by (auto split: sum.splits)
qed

lemma build_patterns_routes:
  "snd ` set (snd (build_patterns compile rs table)) \<subseteq> snd ` set table \<union> set rs"
proof (induction rs arbitrary: table)
  case Nil
  show ?case by simp
next
  case (Cons r rs)
  show ?case
  proof (cases "compile (path r)")
    case (Inl e)
    then show ?thesis by auto
  next
    case (Inr pattern)
    have "snd ` set (snd (build_patterns compile rs (table @ [(pattern, r)])))
        \<subseteq> snd ` set (table @ [(pattern, r)]) \<union> set rs"
      by (rule Cons)
    then show ?thesis using Inr by auto
  qed
qed

lemma matchRoute_loop_member:
  "matchRoute_loop table pn = Some route \<Longrightarrow> route \<in> snd ` set table"
  by (induction table pn rule: matchRoute_loop.induct) (auto split: if_splits)

lemma invariant_handleNavigation:
  assumes inv: "lifetime_invariant options env0 (R, env)"
      and member: "route \<in> set (opt_routes options)"
  shows "lifetime_invariant options env0 (handleNavigation route opts (R, env))"
proof -
  obtain R' env' where h: "handleNavigation route opts (R, env) = (R', env')"
    by (cases "handleNavigation route opts (R, env)")
  note log = handleNavigation_log [OF h]
  note router = handleNavigation_router [OF h]
  note env = handleNavigation_env [OF h]
  have commits: "commits_or_init_assign (effects env')"
    unfolding log using inv
    by (auto simp: lifetime_invariant_def intro!: commits_or_init_assign_append
          commits_plugin_phase commits_commit_phase)
  show ?thesis
    unfolding h using inv member commits
    by (auto simp: lifetime_invariant_def log router env plugin_phase_readers commit_phase_readers)
qed

lemma invariant_constructor:
  "effects env = [] \<Longrightarrow> lifetime_invariant options env (constructor options env)"
  by (simp add: lifetime_invariant_def constructor_def)

lemma invariant_render:
  "lifetime_invariant options env0 s \<Longrightarrow> lifetime_invariant options env0 (snd (Router_render s))"
  by (cases s) (auto simp: lifetime_invariant_def Router_render_def split: option.splits prod.splits)

lemma invariant_moved:
  "lifetime_invariant options env0 s \<Longrightarrow>
   lifetime_invariant options env0
     (fst s, (snd s)\<lparr>location_pathname := pn, document_title := t,
                      startViewTransition := transition, world := w\<rparr>)"
  by (auto simp: lifetime_invariant_def)

lemma invariant_matchRoute:
  assumes "lifetime_invariant options env0 (R, env)" and "matchRoute R pn = Some route"
  shows "route \<in> set (opt_routes options)"
  using assms matchRoute_loop_member [of "patterns R" pn route]
  by (auto simp: lifetime_invariant_def matchRoute_def)

lemma invariant_popstate:
  "lifetime_invariant options env0 s \<Longrightarrow> lifetime_invariant options env0 (onPopstate s)"
  by (cases s)
     (auto simp: onPopstate_def split: option.splits
           intro!: invariant_handleNavigation dest: invariant_matchRoute)

lemma onNavigate_handler:
  "onNavigate event (R, env) = Some intercepted \<Longrightarrow>
   \<exists>pn. matchRoute R pn = Some (handler intercepted)"
  by (auto simp: onNavigate_def split: sum.splits option.splits if_splits)

lemma invariant_navigate:
  assumes "lifetime_invariant options env0 s" and "onNavigate event s = Some intercepted"
  shows "lifetime_invariant options env0 (handleNavigation (handler intercepted) None s)"
proof (cases s)
  case (Pair R env)
  then obtain pn where "matchRoute R pn = Some (handler intercepted)"
    using assms(2) onNavigate_handler by blast
  then have "handler intercepted \<in> set (opt_routes options)"
    using assms(1) Pair invariant_matchRoute by blast
  then show ?thesis
    using assms(1) Pair invariant_handleNavigation by blast
qed

lemma invariant_init:
  assumes inv: "lifetime_invariant options env0 s"
  shows "lifetime_invariant options env0 (snd (init s))"
proof (cases s)
  case (Pair R env)
  show ?thesis
  proof (cases "initialized R")
    case True
    then show ?thesis using inv Pair by (simp add: init_def)
  next
    case False
    obtain err table where b:
      "build_patterns (new_URLPattern env) (routes R) (patterns R) = (err, table)"
      by (cases "build_patterns (new_URLPattern env) (routes R) (patterns R)")
    have compile: "new_URLPattern env = new_URLPattern env0" and rs: "routes R = opt_routes options"
      using inv Pair by (simp_all add: lifetime_invariant_def)
    have err: "fst (build_patterns (new_URLPattern env0) (opt_routes options) []) = err"
      using b build_patterns_error [of "new_URLPattern env" "routes R" "patterns R"] compile rs
      by simp
    have sub: "snd ` set table \<subseteq> set (opt_routes options)"
      using build_patterns_routes [of "new_URLPattern env" "routes R" "patterns R"] b inv Pair rs
      by (auto simp: lifetime_invariant_def)
    show ?thesis
    proof (cases err)
      case (Some e)
      then show ?thesis
        using inv Pair False b err sub
        by (auto simp: init_def lifetime_invariant_def)
    next
      case None
      then have "patterns R = []"
        using inv Pair False err by (auto simp: lifetime_invariant_def)
      then have full: "build_patterns (new_URLPattern env0) (opt_routes options) [] = (None, table)"
        using b None compile rs by simp
      let ?initial = "matchRoute_loop table (location_pathname env)"
      let ?R3 = "R\<lparr>patterns := table, currentRoute := ?initial, initialized := True\<rparr>"
      let ?env2 = "emit [Assigned ?initial, NavigateListenerAdded, PopstateListenerAdded] env"
      have initial: "set_option ?initial \<subseteq> set (opt_routes options)"
        using sub matchRoute_loop_member [of table "location_pathname env"]
        by (cases ?initial) auto
      have "commits_or_init_assign (effects env @ [Assigned ?initial, NavigateListenerAdded, PopstateListenerAdded])"
        using inv Pair
        by (auto simp: lifetime_invariant_def intro!: commits_or_init_assign_append)
      then have inv2: "lifetime_invariant options env0 (?R3, ?env2)"
        using inv Pair False full sub initial
        by (auto simp: lifetime_invariant_def)
      have step: "snd (init s) =
          (case ?initial of None \<Rightarrow> (?R3, ?env2)
           | Some route \<Rightarrow> handleNavigation route None (?R3, ?env2))"
        using Pair False b None
        by (simp add: init_def Let_def matchRoute_def setupNavigationListeners_def emit_def
              split: option.splits)
      show ?thesis
      proof (cases ?initial)
        case None
        then show ?thesis using step inv2 by simp
      next
        case (Some route)
        then have "route \<in> set (opt_routes options)"
          using initial by simp
        then show ?thesis
          using step Some inv2 invariant_handleNavigation by simp
      qed
    qed
  qed
qed

lemma invariant_operation:
  "lifetime_invariant options env0 s \<Longrightarrow> lifetime_invariant options env0 (apply_operation operation s)"
  by (cases operation)
     (auto simp: invariant_init invariant_render invariant_popstate invariant_navigate invariant_moved
           split: option.splits)

lemma invariant_lifetime:
  "effects env = [] \<Longrightarrow> lifetime_invariant options env (lifetime options env ops)"
proof (induction ops rule: rev_induct)
  case Nil
  then show ?case by (simp add: lifetime_def invariant_constructor)
next
  case (snoc operation ops)
  then show ?case by (simp add: lifetime_snoc invariant_operation)
qed

lemma handleNavigation_fst:
  "fst (handleNavigation route opts (R, env)) = R\<lparr>currentRoute := Some route\<rparr>"
  using handleNavigation_router [of route opts R env] by (metis prod.collapse)

lemma init_fulfilled_initialized:
  "fst (init s) = Inr () \<Longrightarrow> initialized (fst (snd (init s)))"
  by (cases s)
     (auto simp: init_def Let_def handleNavigation_fst split: if_splits prod.splits option.splits)

lemma initialized_operation:
  "initialized (fst s) \<Longrightarrow> initialized (fst (apply_operation operation s))"
proof (cases s)
  case (Pair R env)
  assume "initialized (fst s)"
  then show ?thesis
    using Pair
    by (cases operation)
       (auto simp: init_def Router_render_def onPopstate_def handleNavigation_fst
             split: option.splits prod.splits)
qed

lemma initialized_operations:
  "initialized (fst s) \<Longrightarrow>
   initialized (fst (foldl (\<lambda>s operation. apply_operation operation s) s later))"
  by (induction later arbitrary: s) (simp_all add: initialized_operation)

text \<open>
  Claim C5, as stated, fails when a route's pattern does not compile: \<^verbatim>\<open>init()\<close> is
  rejected before \<^verbatim>\<open>this.initialized = true\<close>, so a second call runs the body again; it
  adds the entries of the routes before the broken one to the table a second time, and no
  listener has been added.
\<close>

theorem init_reruns_after_rejection_counterexample:
  "fst (init (constructor broken_options (demo_env ''/'' None))) = Inl ''TypeError''
   \<and> length (patterns (fst (snd (init (constructor broken_options (demo_env ''/'' None)))))) = 1
   \<and> length (patterns (fst (snd (init (snd (init (constructor broken_options (demo_env ''/'' None)))))))) = 2
   \<and> navigate_listeners
       (effects (snd (snd (init (snd (init (constructor broken_options (demo_env ''/'' None)))))))) = 0
   \<and> init (snd (init (constructor broken_options (demo_env ''/'' None))))
       \<noteq> (Inr (), snd (init (constructor broken_options (demo_env ''/'' None))))"
  by (simp add: router_defs demo_defs broken_options_def)

text \<open>
  Claim C5, amended. Once a call of \<^verbatim>\<open>init()\<close> has been fulfilled, at every later point
  of the router's lifetime a call of \<^verbatim>\<open>init()\<close> is fulfilled at once and changes
  nothing, exactly one listener has been added to the navigation observer and exactly one
  to the history notifier, and the pattern table holds one entry for each declared route, in
  the declared order.
\<close>

theorem init_is_a_no_op_once_fulfilled:
  assumes "effects env = []"
      and "fst (init (lifetime options env ops)) = Inr ()"
  shows "init (lifetime options env (ops @ CallInit # later))
           = (Inr (), lifetime options env (ops @ CallInit # later))
       \<and> navigate_listeners (effects (snd (lifetime options env (ops @ CallInit # later)))) = 1
       \<and> popstate_listeners (effects (snd (lifetime options env (ops @ CallInit # later)))) = 1
       \<and> map snd (patterns (fst (lifetime options env (ops @ CallInit # later)))) = opt_routes options"
proof -
  let ?s = "lifetime options env (ops @ CallInit # later)"
  have "?s = foldl (\<lambda>s operation. apply_operation operation s)
               (snd (init (lifetime options env ops))) later"
    by (simp add: lifetime_def)
  then have initialized: "initialized (fst ?s)"
    using init_fulfilled_initialized [OF assms(2)] initialized_operations by metis
  have inv: "lifetime_invariant options env ?s"
    using assms(1) by (rule invariant_lifetime)
  have "build_patterns (new_URLPattern env) (opt_routes options) [] = (None, patterns (fst ?s))"
    using inv initialized by (simp add: lifetime_invariant_def)
  then have "map snd (patterns (fst ?s)) = opt_routes options"
    using build_patterns_fulfilled_routes by fastforce
  moreover have "init ?s = (Inr (), ?s)"
    using initialized by (cases ?s) (simp add: init_def)
  ultimately show ?thesis
    using inv initialized by (simp add: lifetime_invariant_def)
qed

theorem init_is_a_no_op_once_fulfilled_witness:
  "init (lifetime demo_options (demo_env ''/'' None) ([] @ CallInit # [CallInit, PopstateFired]))
     = (Inr (), lifetime demo_options (demo_env ''/'' None) ([] @ CallInit # [CallInit, PopstateFired]))
   \<and> navigate_listeners (effects (snd
       (lifetime demo_options (demo_env ''/'' None) ([] @ CallInit # [CallInit, PopstateFired])))) = 1
   \<and> popstate_listeners (effects (snd
       (lifetime demo_options (demo_env ''/'' None) ([] @ CallInit # [CallInit, PopstateFired])))) = 1
   \<and> map snd (patterns (fst
       (lifetime demo_options (demo_env ''/'' None) ([] @ CallInit # [CallInit, PopstateFired]))))
     = opt_routes demo_options"
proof -
  have fresh: "effects (demo_env ''/'' None) = []"
    by (simp add: demo_env_def)
  have fulfilled: "fst (init (lifetime demo_options (demo_env ''/'' None) [])) = Inr ()"
    by (simp add: lifetime_def router_defs demo_defs)
  show ?thesis
    by (rule init_is_a_no_op_once_fulfilled [OF fresh fulfilled])
qed

lemma commit_phase_last_assigned:
  "last (v # xs @ assigned_values (commit_phase_log route options transition)) = Some route"
  by (auto simp: commit_phase_log_def split: option.splits transition_outcome.splits)

lemma tie_handleNavigation:
  "field_follows_log (handleNavigation route opts s)"
proof (cases s)
  case (Pair R env)
  obtain R' env' where h: "handleNavigation route opts (R, env) = (R', env')"
    by (cases "handleNavigation route opts (R, env)")
  have "last (None # assigned_values (effects env')) = Some route"
    using handleNavigation_log [OF h]
      commit_phase_last_assigned [of None "assigned_values (effects env)" route opts "startViewTransition env"]
    by (simp add: plugin_phase_readers)
  then show ?thesis
    unfolding Pair h field_follows_log_def
    using handleNavigation_router [OF h] by simp
qed

lemma tie_init:
  assumes "field_follows_log s"
  shows "field_follows_log (snd (init s))"
proof (cases s)
  case (Pair R env)
  show ?thesis
  proof (cases "initialized R")
    case True
    then show ?thesis using assms Pair by (simp add: init_def)
  next
    case False
    obtain err table where b:
      "build_patterns (new_URLPattern env) (routes R) (patterns R) = (err, table)"
      by (cases "build_patterns (new_URLPattern env) (routes R) (patterns R)")
    show ?thesis
    proof (cases err)
      case (Some e)
      then show ?thesis
        using assms Pair False b by (simp add: init_def field_follows_log_def)
    next
      case None
      show ?thesis
      proof (cases "matchRoute_loop table (location_pathname env)")
        case none: None
        then show ?thesis
          using Pair False b None
          by (simp add: init_def Let_def matchRoute_def setupNavigationListeners_def
                field_follows_log_def)
      next
        case (Some route)
        then show ?thesis
          using Pair False b None
          by (simp add: init_def Let_def matchRoute_def tie_handleNavigation)
      qed
    qed
  qed
qed

lemma tie_operation:
  assumes "field_follows_log s"
  shows "field_follows_log (apply_operation operation s)"
proof (cases operation)
  case CallInit
  then show ?thesis using assms tie_init by simp
next
  case CallRender
  then show ?thesis
    using assms
    by (cases s) (auto simp: field_follows_log_def Router_render_def split: option.splits prod.splits)
next
  case (NavigateFired event)
  then show ?thesis
    using assms by (simp add: tie_handleNavigation split: option.splits)
next
  case PopstateFired
  then show ?thesis
    using assms
    by (cases s) (simp add: onPopstate_def tie_handleNavigation split: option.splits)
next
  case (PageMoved pn t transition w)
  then show ?thesis
    using assms by (simp add: field_follows_log_def)
qed

lemma tie_lifetime:
  "effects env = [] \<Longrightarrow> field_follows_log (lifetime options env ops)"
proof (induction ops rule: rev_induct)
  case Nil
  then show ?case by (simp add: lifetime_def constructor_def field_follows_log_def)
next
  case (snoc operation ops)
  then show ?case by (simp add: lifetime_snoc tie_operation)
qed

lemma init_stores_startup_match:
  assumes inv: "lifetime_invariant options env0 s"
      and fresh: "\<not> initialized (fst s)"
      and fulfilled: "fst (init s) = Inr ()"
  shows "(\<exists>rest. effects (snd (snd (init s))) =
            effects (snd s)
            @ Assigned (List.find (\<lambda>r. pattern_matches env0 r (location_pathname (snd s)))
                 (opt_routes options))
            # NavigateListenerAdded # PopstateListenerAdded # rest)
       \<and> currentRoute (fst (snd (init s))) =
           List.find (\<lambda>r. pattern_matches env0 r (location_pathname (snd s))) (opt_routes options)"
proof (cases s)
  case (Pair R env)
  let ?m = "List.find (\<lambda>r. pattern_matches env0 r (location_pathname env)) (opt_routes options)"
  obtain err table where b:
    "build_patterns (new_URLPattern env) (routes R) (patterns R) = (err, table)"
    by (cases "build_patterns (new_URLPattern env) (routes R) (patterns R)")
  have compile: "new_URLPattern env = new_URLPattern env0" and rs: "routes R = opt_routes options"
    using inv Pair by (simp_all add: lifetime_invariant_def)
  have none: "err = None"
    using fulfilled fresh Pair b by (auto simp: init_def split: option.splits)
  have "fst (build_patterns (new_URLPattern env0) (opt_routes options) []) = None"
    using b none build_patterns_error [of "new_URLPattern env" "routes R" "patterns R"] compile rs
    by simp
  then have empty: "patterns R = []"
    using inv Pair fresh by (auto simp: lifetime_invariant_def)
  then have full: "build_patterns (new_URLPattern env0) (opt_routes options) [] = (None, table)"
    using b none compile rs by simp
  have m: "matchRoute_loop table (location_pathname env) = ?m"
    using build_patterns_match [OF full, of "location_pathname env"]
    by (simp add: pattern_matches_def)
  let ?R3 = "R\<lparr>patterns := table, currentRoute := ?m, initialized := True\<rparr>"
  let ?env2 = "emit [Assigned ?m, NavigateListenerAdded, PopstateListenerAdded] env"
  have step: "snd (init s) =
      (case ?m of None \<Rightarrow> (?R3, ?env2)
       | Some route \<Rightarrow> handleNavigation route None (?R3, ?env2))"
    using Pair fresh b none m
    by (simp add: init_def Let_def matchRoute_def setupNavigationListeners_def emit_def
          split: option.splits)
  show ?thesis
  proof (cases ?m)
    case None
    then show ?thesis using step Pair by simp
  next
    case (Some route)
    obtain R' env' where h: "handleNavigation route None (?R3, ?env2) = (R', env')"
      by (cases "handleNavigation route None (?R3, ?env2)")
    have "snd (init s) = (R', env')"
      using step Some h by simp
    then show ?thesis
      using handleNavigation_log [OF h] handleNavigation_router [OF h] Some Pair
      by simp
  qed
qed

text \<open>
  Claim C7, as stated, fails in its second half: \<^verbatim>\<open>init()\<close> assigns the startup match
  to \<^verbatim>\<open>currentRoute\<close> directly, before it adds the listeners and before any hook runs;
  the notification follows only when the navigation it then starts commits.
\<close>

theorem init_assigns_currentRoute_without_commit_counterexample:
  "getCurrentRoute (constructor demo_options (demo_env ''/'' None)) = None
   \<and> effects (snd (lifetime demo_options (demo_env ''/'' None) [CallInit]))
     = [Assigned (Some (demo_route ''/'' ''Home'' None)), NavigateListenerAdded, PopstateListenerAdded,
        HookCalled plugin_counting, HookSettled plugin_counting None,
        Assigned (Some (demo_route ''/'' ''Home'' None)),
        Dispatched (RouteChanged (demo_route ''/'' ''Home'' None))]
   \<and> \<not> changes_only_in_commits (getCurrentRoute (constructor demo_options (demo_env ''/'' None)))
          (effects (snd (lifetime demo_options (demo_env ''/'' None) [CallInit])))"
  by (simp add: lifetime_defs router_defs demo_defs)

text \<open>
  Claim C7, amended. At every point of a router's lifetime the field \<^verbatim>\<open>currentRoute\<close>
  is the value of the last assignment made to it (\<^verbatim>\<open>null\<close> before the first), so it
  changes at no other place; it is \<^verbatim>\<open>null\<close> or a member, by reference, of the route
  list given to the constructor, and so is every value ever assigned to it: routes are values
  here and a reference into the list is a position in it, so the statement gives a position
  of the list at which the current route stands. It is assigned only by the state commit,
  where \<^verbatim>\<open>route-changed\<close> for the assigned route follows at once, and by the
  initial-route step of \<^verbatim>\<open>init()\<close>, which is followed by the registration of the
  \<^verbatim>\<open>navigate\<close> listener; that listener is registered at most once. The initial-route
  step stores the startup match: when \<^verbatim>\<open>init()\<close> is called on a router that is not
  initialized and is fulfilled, the first thing it writes is the assignment of the first
  declared route whose pattern matches the pathname of the location at that moment
  (\<^verbatim>\<open>null\<close> when none matches), then the two listeners, and that value is the current
  route when the call has completed.
\<close>

theorem currentRoute_is_declared_and_assigned_by_commit_or_init:
  assumes "effects env = []"
  shows "getCurrentRoute (lifetime options env ops)
           = last (None # assigned_values (effects (snd (lifetime options env ops))))
       \<and> (\<forall>route. getCurrentRoute (lifetime options env ops) = Some route
            \<longrightarrow> (\<exists>i < length (opt_routes options). opt_routes options ! i = route))
       \<and> (\<forall>v \<in> set (assigned_values (effects (snd (lifetime options env ops)))).
            \<forall>route. v = Some route \<longrightarrow> (\<exists>i < length (opt_routes options). opt_routes options ! i = route))
       \<and> commits_or_init_assign (effects (snd (lifetime options env ops)))
       \<and> navigate_listeners (effects (snd (lifetime options env ops))) \<le> 1
       \<and> (\<not> initialized (fst (lifetime options env ops))
            \<and> fst (init (lifetime options env ops)) = Inr () \<longrightarrow>
          (\<exists>rest. effects (snd (lifetime options env (ops @ [CallInit]))) =
             effects (snd (lifetime options env ops))
             @ Assigned (List.find (\<lambda>r. pattern_matches env r
                   (location_pathname (snd (lifetime options env ops)))) (opt_routes options))
             # NavigateListenerAdded # PopstateListenerAdded # rest)
          \<and> getCurrentRoute (lifetime options env (ops @ [CallInit])) =
              List.find (\<lambda>r. pattern_matches env r
                   (location_pathname (snd (lifetime options env ops)))) (opt_routes options))"
proof -
  have inv: "lifetime_invariant options env (lifetime options env ops)"
    using assms by (rule invariant_lifetime)
  have tie: "field_follows_log (lifetime options env ops)"
    using assms by (rule tie_lifetime)
  have member: "\<forall>route. getCurrentRoute (lifetime options env ops) = Some route
            \<longrightarrow> (\<exists>i < length (opt_routes options). opt_routes options ! i = route)"
    using inv by (auto simp: lifetime_invariant_def getCurrentRoute_def in_set_conv_nth)
  have assigned: "\<forall>v \<in> set (assigned_values (effects (snd (lifetime options env ops)))).
            \<forall>route. v = Some route \<longrightarrow> (\<exists>i < length (opt_routes options). opt_routes options ! i = route)"
    using inv by (auto simp: lifetime_invariant_def in_set_conv_nth)
  show ?thesis
    using inv tie member assigned init_stores_startup_match [OF inv]
    by (simp add: lifetime_invariant_def field_follows_log_def getCurrentRoute_def lifetime_snoc)
qed


theorem currentRoute_is_declared_and_assigned_by_commit_or_init_witness:
  "getCurrentRoute (lifetime demo_options (demo_env ''/'' None)
       [CallInit, PageMoved ''/about'' ''Home'' None 1, PopstateFired])
     = last (None # assigned_values (effects (snd (lifetime demo_options (demo_env ''/'' None)
         [CallInit, PageMoved ''/about'' ''Home'' None 1, PopstateFired]))))
   \<and> commits_or_init_assign (effects (snd (lifetime demo_options (demo_env ''/'' None)
       [CallInit, PageMoved ''/about'' ''Home'' None 1, PopstateFired])))
   \<and> getCurrentRoute (lifetime demo_options (demo_env ''/'' None)
       [CallInit, PageMoved ''/about'' ''Home'' None 1, PopstateFired]) = Some about
   \<and> getCurrentRoute (lifetime demo_options (demo_env ''/'' None) ([] @ [CallInit]))
     = Some (demo_route ''/'' ''Home'' None)"
proof -
  have fresh: "effects (demo_env ''/'' None) = []"
    by (simp add: demo_env_def)
  have moved: "getCurrentRoute (lifetime demo_options (demo_env ''/'' None)
       [CallInit, PageMoved ''/about'' ''Home'' None 1, PopstateFired]) = Some about"
    by (simp add: lifetime_defs router_defs demo_defs)
  have startup: "\<not> initialized (fst (lifetime demo_options (demo_env ''/'' None) []))
      \<and> fst (init (lifetime demo_options (demo_env ''/'' None) [])) = Inr ()"
    by (simp add: lifetime_def router_defs demo_defs)
  have found: "List.find (\<lambda>r. pattern_matches (demo_env ''/'' None) r
        (location_pathname (snd (lifetime demo_options (demo_env ''/'' None) []))))
        (opt_routes demo_options) = Some (demo_route ''/'' ''Home'' None)"
    by (simp add: lifetime_def constructor_def pattern_matches_def demo_defs)
  have "getCurrentRoute (lifetime demo_options (demo_env ''/'' None) ([] @ [CallInit]))
      = Some (demo_route ''/'' ''Home'' None)"
    using currentRoute_is_declared_and_assigned_by_commit_or_init [OF fresh, of demo_options "[]"]
      startup found
    by simp
  with moved currentRoute_is_declared_and_assigned_by_commit_or_init [OF fresh, of demo_options
      "[CallInit, PageMoved ''/about'' ''Home'' None 1, PopstateFired]"]
  show ?thesis by blast
qed

end
